theory Spec2Isabelle
  imports Complex_Main "HOL-Library.Multiset" "HOL-Library.Word"
begin

section \<open>Font matching: the numeric pipeline of fontsnip\<close>

text \<open>
  The development embeds \<^verbatim>\<open>src/matching/font_matcher.py\<close> and
  \<^verbatim>\<open>src/matching/feature_extractor.py\<close>.

  Conventions of the embedding.
  \<^item> A one-dimensional NumPy array of floats is a \<open>real list\<close>. Floating-point numbers
    are read as the real numbers they denote, and the arithmetic of the matcher and of
    the extractor as exact arithmetic. Rounding is modelled where a statement depends on
    it: the conversion to \<^verbatim>\<open>float32\<close> of the loader, and a second embedding of the cosine
    similarity in which every operation rounds. Overflow and NaN are not part of the
    model.
  \<^item> The font database, a Python \<open>dict\<close>, is an association list in the dictionary's
    iteration order (insertion order).
  \<^item> Python exceptions are values of \<open>py_error\<close>; a function that can raise returns
    \<open>py_error + 'a\<close>, with \<open>Inl\<close> for the exception.
  \<^item> Python's \<open>None\<close> is \<open>None\<close> of an option type.
  \<^item> A glyph image is an array of unsigned bytes: its shape and its elements in row-major
    order. The contour functions of OpenCV are a parameter of the feature extractor.
  \<^item> Output written with \<^verbatim>\<open>print\<close> is not modelled.
\<close>

subsection \<open>Exceptions\<close>

datatype py_error =
    FileNotFoundError
  | ValueError
  | UnpicklingError
  | EOFError
  | ImportError
  | IndexError
  | AttributeError
  | Exception

subsection \<open>Floating-point rounding\<close>

text \<open>Rounding of a real number to the nearest integer, ties to the even one.\<close>

definition round_half_even :: "real \<Rightarrow> int" where
  "round_half_even x =
     (let f = \<lfloor>x\<rfloor>; d = x - of_int f
      in if d < 1 / 2 then f
         else if 1 / 2 < d then f + 1
         else if even f then f else f + 1)"

text \<open>Rounding to the nearest number of a binary floating-point format with \<open>p\<close>
  significant bits and least exponent \<open>emin\<close>, ties to even (the IEEE 754 default):
  a number of magnitude at least \<open>2 ^ e\<close> and less than \<open>2 ^ (e + 1)\<close> is rounded to a
  multiple of \<open>2 ^ (e - p + 1)\<close>, and a number of magnitude less than \<open>2 ^ emin\<close> to a
  multiple of the least subnormal number \<open>2 ^ (emin - p + 1)\<close>. Magnitudes beyond the
  format's range, which round to an infinity, are outside the model.\<close>

definition ieee_round :: "nat \<Rightarrow> int \<Rightarrow> real \<Rightarrow> real" where
  "ieee_round p emin x =
     (if x = 0 then 0
      else
        let e = max \<lfloor>log 2 \<bar>x\<bar>\<rfloor> emin;
            ulp = 2 powr (of_int e - (real p - 1))
        in of_int (round_half_even (x / ulp)) * ulp)"

text \<open>\<^verbatim>\<open>np.float32\<close> is binary32 and \<^verbatim>\<open>np.float64\<close>, Python's \<^verbatim>\<open>float\<close>, is binary64.\<close>

definition float32 :: "real \<Rightarrow> real" where
  "float32 x = ieee_round 24 (- 126) x"

definition float64 :: "real \<Rightarrow> real" where
  "float64 x = ieee_round 53 (- 1022) x"

subsection \<open>NumPy primitives on one-dimensional arrays\<close>

text \<open>\<^verbatim>\<open>np.dot(vec1, vec2)\<close> on two 1-D arrays: the inner product; arrays of
  different lengths raise \<^verbatim>\<open>ValueError\<close> (shapes not aligned).\<close>

definition np_dot :: "real list \<Rightarrow> real list \<Rightarrow> py_error + real" where
  "np_dot vec1 vec2 =
     (if length vec1 \<noteq> length vec2 then Inl ValueError
      else Inr (sum_list (map (\<lambda>(x, y). x * y) (zip vec1 vec2))))"

text \<open>\<^verbatim>\<open>np.linalg.norm(vec)\<close> on a 1-D array: the Euclidean norm.\<close>

definition np_linalg_norm :: "real list \<Rightarrow> real" where
  "np_linalg_norm vec = sqrt (sum_list (map (\<lambda>x. x * x) vec))"

text \<open>\<^verbatim>\<open>np.mean(np.array(rows), axis=0)\<close> on a non-empty list of 1-D arrays that all
  have the length of the first one: the componentwise arithmetic mean.\<close>

definition np_mean_axis0 :: "real list list \<Rightarrow> real list" where
  "np_mean_axis0 rows =
     map (\<lambda>i. sum_list (map (\<lambda>row. row ! i) rows) / real (length rows))
         [0 ..< length (hd rows)]"

subsection \<open>Python list primitives\<close>

text \<open>\<^verbatim>\<open>xs[:n]\<close> for a Python integer \<open>n\<close>: a negative \<open>n\<close> counts from the end.\<close>

definition slice_to :: "'a list \<Rightarrow> int \<Rightarrow> 'a list" where
  "slice_to xs n =
     (if n < 0 then take (nat (int (length xs) + n)) xs else take (nat n) xs)"

text \<open>\<^verbatim>\<open>scores.sort(key=lambda item: item[1], reverse=True)\<close>: Python's sort is
  stable, also with \<^verbatim>\<open>reverse=True\<close>: items with equal keys keep their order.
  A stable descending sort by the key is a stable ascending sort by the negated key.\<close>

definition sort_scores :: "(string \<times> real) list \<Rightarrow> (string \<times> real) list" where
  "sort_scores scores = sort_key (\<lambda>item. - snd item) scores"

subsection \<open>\<^verbatim>\<open>FontMatcher\<close>\<close>

type_synonym font_database = "(string \<times> real list) list"

text \<open>\<^verbatim>\<open>FontMatcher._calculate_target_vector\<close>\<close>

definition calculate_target_vector :: "real list list \<Rightarrow> real list option" where
  "calculate_target_vector character_features =
     (case character_features of
        [] \<Rightarrow> None
      | first # _ \<Rightarrow>
          let first_vector_len = length first in
          if \<not> list_all (\<lambda>vec. length vec = first_vector_len) character_features
          then
            (let kept = filter (\<lambda>vec. length vec = first_vector_len) character_features
             in if kept = [] then None else Some (np_mean_axis0 kept))
          else Some (np_mean_axis0 character_features))"

text \<open>\<^verbatim>\<open>FontMatcher._cosine_similarity\<close>\<close>

definition cosine_similarity :: "real list \<Rightarrow> real list \<Rightarrow> py_error + real" where
  "cosine_similarity vec1 vec2 =
     (case np_dot vec1 vec2 of
        Inl e \<Rightarrow> Inl e
      | Inr dot_product \<Rightarrow>
          let norm_vec1 = np_linalg_norm vec1;
              norm_vec2 = np_linalg_norm vec2
          in if norm_vec1 = 0 \<or> norm_vec2 = 0 then Inr 0
             else Inr (dot_product / (norm_vec1 * norm_vec2)))"

text \<open>The loop of \<^verbatim>\<open>find_best_matches\<close> that fills \<^verbatim>\<open>scores\<close>, in the
  database's iteration order; an exception of \<^verbatim>\<open>_cosine_similarity\<close> leaves the loop.\<close>

fun score_loop ::
  "real list \<Rightarrow> font_database \<Rightarrow> (string \<times> real) list \<Rightarrow> py_error + (string \<times> real) list"
where
  "score_loop target_vector [] scores = Inr scores"
| "score_loop target_vector ((font_name, db_vector) # rest) scores =
     (case cosine_similarity target_vector db_vector of
        Inl e \<Rightarrow> Inl e
      | Inr similarity \<Rightarrow> score_loop target_vector rest (scores @ [(font_name, similarity)]))"

text \<open>\<^verbatim>\<open>FontMatcher.find_best_matches\<close>, with \<^verbatim>\<open>self.font_database\<close> as first argument.\<close>

definition find_best_matches ::
  "font_database \<Rightarrow> real list list \<Rightarrow> int \<Rightarrow> py_error + (string \<times> real) list"
where
  "find_best_matches font_database character_features top_n =
     (case font_database of
        [] \<Rightarrow> Inr []
      | (_, sample_db_vector) # _ \<Rightarrow>
          (case calculate_target_vector character_features of
             None \<Rightarrow> Inr []
           | Some target_vector \<Rightarrow>
               if length target_vector \<noteq> length sample_db_vector then Inr []
               else
                 (case score_loop target_vector font_database [] of
                    Inl e \<Rightarrow> Inl e
                  | Inr scores \<Rightarrow> Inr (slice_to (sort_scores scores) top_n))))"

subsection \<open>The cosine similarity in rounded arithmetic\<close>

text \<open>\<^verbatim>\<open>FontMatcher._cosine_similarity\<close> once more, with the result of every arithmetic
  operation rounded by \<open>fl\<close>: \<^verbatim>\<open>np.dot\<close> adds the rounded products one after the other,
  \<^verbatim>\<open>np.linalg.norm(x)\<close> is the rounded square root of \<^verbatim>\<open>x.dot(x)\<close>, and the product of
  the norms and the quotient round. With \<open>float64\<close> for \<open>fl\<close> this is the function on
  arrays of Python floats; with the identity it is \<open>cosine_similarity\<close>. The order in
  which \<^verbatim>\<open>np.dot\<close> adds the products is left to the linear-algebra library; on the
  arrays of one or two elements evaluated below every order gives the same sum.\<close>

definition dot_rounded :: "(real \<Rightarrow> real) \<Rightarrow> real list \<Rightarrow> real list \<Rightarrow> py_error + real" where
  "dot_rounded fl vec1 vec2 =
     (if length vec1 \<noteq> length vec2 then Inl ValueError
      else Inr (foldl (\<lambda>acc (x, y). fl (acc + fl (x * y))) 0 (zip vec1 vec2)))"

definition norm_rounded :: "(real \<Rightarrow> real) \<Rightarrow> real list \<Rightarrow> real" where
  "norm_rounded fl vec = fl (sqrt (foldl (\<lambda>acc (x, y). fl (acc + fl (x * y))) 0 (zip vec vec)))"

definition cosine_similarity_rounded ::
  "(real \<Rightarrow> real) \<Rightarrow> real list \<Rightarrow> real list \<Rightarrow> py_error + real"
where
  "cosine_similarity_rounded fl vec1 vec2 =
     (case dot_rounded fl vec1 vec2 of
        Inl e \<Rightarrow> Inl e
      | Inr dot_product \<Rightarrow>
          let norm_vec1 = norm_rounded fl vec1;
              norm_vec2 = norm_rounded fl vec2
          in if norm_vec1 = 0 \<or> norm_vec2 = 0 then Inr 0
             else Inr (fl (dot_product / fl (norm_vec1 * norm_vec2))))"

text \<open>The rounding \<open>fl\<close> has relative error at most \<open>u\<close> at the number \<open>x\<close>.\<close>

definition relative_error_at :: "(real \<Rightarrow> real) \<Rightarrow> real \<Rightarrow> real \<Rightarrow> bool" where
  "relative_error_at fl u x \<longleftrightarrow> \<bar>fl x - x\<bar> \<le> u * \<bar>x\<bar>"

subsection \<open>Runs of \<^verbatim>\<open>find_best_matches\<close> on a matcher object\<close>

text \<open>The attributes of a \<^verbatim>\<open>FontMatcher\<close> object.\<close>

record matcher =
  self_db_path :: string
  self_font_database :: font_database

text \<open>What Python guarantees of \<^verbatim>\<open>scores.sort(key=lambda item: item[1], reverse=True)\<close>,
  whichever algorithm sorts: the list afterwards is a rearrangement of the list before,
  in descending order of the key, and items of equal key keep the order they had.\<close>

definition sorted_by_score :: "(string \<times> real) list \<Rightarrow> (string \<times> real) list \<Rightarrow> bool" where
  "sorted_by_score scores ranked \<longleftrightarrow>
     mset ranked = mset scores
     \<and> sorted_wrt (\<lambda>x y. snd x \<ge> snd y) ranked
     \<and> (\<forall>k \<in> set (map snd scores).
           filter (\<lambda>item. snd item = k) ranked = filter (\<lambda>item. snd item = k) scores)"

text \<open>One call of \<^verbatim>\<open>find_best_matches\<close> on the object \<open>self\<close>, as a relation between the
  object and the arguments before the call and the outcome and the object after it. The
  rules follow the returns of the method; the database is read in its iteration order,
  the sort is any sort with the guarantees above, and no rule assigns to an attribute.\<close>

inductive find_best_matches_run ::
  "matcher \<Rightarrow> real list list \<Rightarrow> int \<Rightarrow> (py_error + (string \<times> real) list) \<times> matcher \<Rightarrow> bool"
where
  run_empty_database:
    "self_font_database self = []
     \<Longrightarrow> find_best_matches_run self character_features top_n (Inr [], self)"
| run_no_target:
    "self_font_database self = (font_name, sample_db_vector) # rest
     \<Longrightarrow> calculate_target_vector character_features = None
     \<Longrightarrow> find_best_matches_run self character_features top_n (Inr [], self)"
| run_dimension_mismatch:
    "self_font_database self = (font_name, sample_db_vector) # rest
     \<Longrightarrow> calculate_target_vector character_features = Some target_vector
     \<Longrightarrow> length target_vector \<noteq> length sample_db_vector
     \<Longrightarrow> find_best_matches_run self character_features top_n (Inr [], self)"
| run_raises:
    "self_font_database self = (font_name, sample_db_vector) # rest
     \<Longrightarrow> calculate_target_vector character_features = Some target_vector
     \<Longrightarrow> length target_vector = length sample_db_vector
     \<Longrightarrow> score_loop target_vector (self_font_database self) [] = Inl e
     \<Longrightarrow> find_best_matches_run self character_features top_n (Inl e, self)"
| run_ranked:
    "self_font_database self = (font_name, sample_db_vector) # rest
     \<Longrightarrow> calculate_target_vector character_features = Some target_vector
     \<Longrightarrow> length target_vector = length sample_db_vector
     \<Longrightarrow> score_loop target_vector (self_font_database self) [] = Inr scores
     \<Longrightarrow> sorted_by_score scores ranked
     \<Longrightarrow> find_best_matches_run self character_features top_n
           (Inr (slice_to ranked top_n), self)"

subsection \<open>Loading the database\<close>

text \<open>The database file as \<^verbatim>\<open>pickle.load\<close> sees it: reading it raises an exception,
  or returns the stored mapping from font names to feature vectors, in the mapping's
  order. Objects of other types are outside the model.\<close>

datatype pickle_file =
    Raises py_error
  | Pickled "(string \<times> real list) list"

definition pickle_load :: "pickle_file \<Rightarrow> py_error + (string \<times> real list) list" where
  "pickle_load f = (case f of Raises e \<Rightarrow> Inl e | Pickled data \<Rightarrow> Inr data)"

text \<open>\<^verbatim>\<open>np.array(features, dtype=np.float32)\<close> on a sequence of floats: a 1-D array of
  the same length whose elements are the numbers rounded to \<^verbatim>\<open>float32\<close>.\<close>

definition np_array_float32 :: "real list \<Rightarrow> real list" where
  "np_array_float32 features = map float32 features"

text \<open>\<^verbatim>\<open>FontMatcher._load_database\<close>. The argument is the file at \<^verbatim>\<open>self.db_path\<close>,
  \<open>None\<close> when no file exists there.\<close>

definition load_database :: "pickle_file option \<Rightarrow> py_error + font_database" where
  "load_database db_file =
     (case db_file of
        None \<Rightarrow> Inl FileNotFoundError
      | Some f \<Rightarrow>
          (case pickle_load f of
             Inl e \<Rightarrow>
               if e \<in> {UnpicklingError, EOFError, ImportError, IndexError}
               then Inl Exception else Inl e
           | Inr data \<Rightarrow>
               Inr (map (\<lambda>(name, features). (name, np_array_float32 features)) data)))"

subsection \<open>Glyph images\<close>

record ndarray_uint8 =
  shape :: "nat list"
  flat :: "8 word list"

text \<open>\<^verbatim>\<open>char_image.size\<close>: the product of the dimensions.\<close>

definition np_size :: "ndarray_uint8 \<Rightarrow> nat" where
  "np_size img = prod_list (shape img)"

text \<open>\<^verbatim>\<open>np.count_nonzero(char_image)\<close>\<close>

definition count_nonzero :: "ndarray_uint8 \<Rightarrow> nat" where
  "count_nonzero img = length (filter (\<lambda>p. p \<noteq> 0) (flat img))"

text \<open>\<^verbatim>\<open>np.zeros(n, dtype=np.float32)\<close>\<close>

definition np_zeros :: "nat \<Rightarrow> real list" where
  "np_zeros n = replicate n 0"

text \<open>\<^verbatim>\<open>cv2.moments(char_image)\<close> on an image of width \<open>w\<close>: the raw spatial moments
  \<open>m\<^sub>j\<^sub>i = \<Sum> x\<^sup>j y\<^sup>i I(x, y)\<close> of the pixel intensities, of which the extractor reads
  \<open>m00\<close>, \<open>m10\<close> and \<open>m01\<close>. The pixel at position \<open>k\<close> of the row-major buffer has
  column \<open>x = k mod w\<close> and row \<open>y = k div w\<close>.\<close>

record moments =
  m00 :: real
  m10 :: real
  m01 :: real

text \<open>The value of a pixel, a number from 0 to 255.\<close>

definition intensity :: "8 word \<Rightarrow> real" where
  "intensity p = real (unat p)"

definition cv2_moments :: "ndarray_uint8 \<Rightarrow> nat \<Rightarrow> moments" where
  "cv2_moments img w =
     \<lparr> m00 = sum_list (map (\<lambda>(k, p). intensity p) (enumerate 0 (flat img))),
       m10 = sum_list (map (\<lambda>(k, p). real (k mod w) * intensity p) (enumerate 0 (flat img))),
       m01 = sum_list (map (\<lambda>(k, p). real (k div w) * intensity p) (enumerate 0 (flat img))) \<rparr>"

text \<open>The contour functions of OpenCV, taken as they are: \<^verbatim>\<open>cv2.findContours\<close> with
  \<^verbatim>\<open>RETR_CCOMP\<close> and \<^verbatim>\<open>CHAIN_APPROX_SIMPLE\<close> returns the contours and the hierarchy,
  which is \<open>None\<close> when there is no contour and otherwise has one row
  (next, previous, first child, parent) for each contour; \<^verbatim>\<open>cv2.arcLength(c, True)\<close>
  and \<^verbatim>\<open>cv2.contourArea(c)\<close> measure one contour.\<close>

type_synonym contour = "(int \<times> int) list"

type_synonym hierarchy_row = "int \<times> int \<times> int \<times> int"

record cv2 =
  findContours :: "ndarray_uint8 \<Rightarrow> contour list \<times> hierarchy_row list option"
  arcLength :: "contour \<Rightarrow> real"
  contourArea :: "contour \<Rightarrow> real"

definition parent :: "hierarchy_row \<Rightarrow> int" where
  "parent row = (case row of (nxt, prv, child, par) \<Rightarrow> par)"

subsection \<open>\<^verbatim>\<open>extract_features\<close>\<close>

definition FEATURE_VECTOR_SIZE :: nat where
  "FEATURE_VECTOR_SIZE = 7"

text \<open>\<^verbatim>\<open>extract_features\<close> on an array of unsigned bytes or \<open>None\<close>; for this element
  type the conversion with \<^verbatim>\<open>astype(np.uint8)\<close> is skipped. Unpacking
  \<^verbatim>\<open>h, w = char_image.shape\<close> raises \<^verbatim>\<open>ValueError\<close> when the array is not
  two-dimensional.\<close>

definition extract_features :: "cv2 \<Rightarrow> ndarray_uint8 option \<Rightarrow> py_error + real list" where
  "extract_features cv char_image =
     (case char_image of
        None \<Rightarrow> Inr (np_zeros FEATURE_VECTOR_SIZE)
      | Some img \<Rightarrow>
          if np_size img = 0 then Inr (np_zeros FEATURE_VECTOR_SIZE)
          else
            (case shape img of
               [h, w] \<Rightarrow>
                 if h = 0 \<or> w = 0 \<or> count_nonzero img = 0
                 then Inr (np_zeros FEATURE_VECTOR_SIZE)
                 else
                   let aspect_ratio = real w / real h;
                       total_pixels = h * w;
                       white_pixels = count_nonzero img;
                       pixel_density = real white_pixels / real total_pixels;
                       mom = cv2_moments img w;
                       norm_centroid_x =
                         (if m00 mom = 0 then 1 / 2 else (m10 mom / m00 mom) / real w);
                       norm_centroid_y =
                         (if m00 mom = 0 then 1 / 2 else (m01 mom / m00 mom) / real h);
                       (contours, hierarchy) = findContours cv img;
                       num_holes =
                         (case hierarchy of
                            None \<Rightarrow> 0
                          | Some rows \<Rightarrow> length (filter (\<lambda>row. parent row \<noteq> - 1) rows));
                       total_perimeter =
                         (case hierarchy of
                            None \<Rightarrow> 0
                          | Some rows \<Rightarrow> sum_list (map (arcLength cv) contours));
                       total_area =
                         (case hierarchy of
                            None \<Rightarrow> 0
                          | Some rows \<Rightarrow> sum_list (map (contourArea cv) contours));
                       norm_total_perimeter =
                         (if h + w > 0 then total_perimeter / real (h + w) else 0);
                       norm_total_area =
                         (if total_pixels > 0 then total_area / real total_pixels else 0)
                   in Inr [aspect_ratio, pixel_density, norm_centroid_x, norm_centroid_y,
                           real num_holes, norm_total_perimeter, norm_total_area]
             | _ \<Rightarrow> Inl ValueError))"

text \<open>The answers of OpenCV on the images used as concrete inputs below: no contour
  on an image without foreground, and on an image whose foreground is the single pixel
  of row 0 and column 1 one outer contour, that point, of arc length 0 and area 0.\<close>

definition cv2_single_pixel :: cv2 where
  "cv2_single_pixel =
     \<lparr> findContours = (\<lambda>img. if count_nonzero img = 0 then ([], None)
                            else ([[(1, 0)]], Some [(- 1, - 1, - 1, - 1)])),
       arcLength = (\<lambda>c. 0),
       contourArea = (\<lambda>c. 0) \<rparr>"

section \<open>Rounding\<close>

lemma round_half_even_near:
  assumes "\<bar>x - of_int m\<bar> < 1 / 2"
  shows "round_half_even x = m"
proof (cases "of_int m \<le> x")
  case True
  with assms have "\<lfloor>x\<rfloor> = m"
    by (intro floor_unique) (auto simp: abs_if split: if_splits)
  with assms True show ?thesis
    by (simp add: round_half_even_def Let_def abs_if split: if_splits)
next
  case False
  with assms have "\<lfloor>x\<rfloor> = m - 1"
    by (intro floor_unique) (auto simp: abs_if split: if_splits)
  with assms False show ?thesis
    by (auto simp: round_half_even_def Let_def abs_if split: if_splits)
qed

lemma round_half_even_tie:
  assumes "x = of_int m + 1 / 2"
  shows "round_half_even x = (if even m then m else m + 1)"
proof -
  from assms have "\<lfloor>x\<rfloor> = m"
    by (intro floor_unique) auto
  with assms show ?thesis
    by (simp add: round_half_even_def Let_def)
qed

lemma floor_log2:
  assumes "2 powr of_int e \<le> x" and "x < 2 powr (of_int e + 1)"
  shows "\<lfloor>log 2 x\<rfloor> = e"
proof -
  have "0 < (2 :: real) powr of_int e"
    by simp
  with assms(1) have pos: "0 < x"
    by linarith
  show ?thesis
  proof (rule floor_unique)
    show "of_int e \<le> log 2 x"
      using assms(1) pos by (simp add: le_log_iff)
    show "log 2 x < of_int e + 1"
      using assms(2) pos by (simp add: log_less_iff)
  qed
qed

text \<open>A number within half a unit in the last place of a multiple of that unit rounds
  to the multiple.\<close>

lemma ieee_round_near:
  assumes "2 powr of_int e \<le> \<bar>x\<bar>" and "\<bar>x\<bar> < 2 powr (of_int e + 1)"
    and "emin \<le> e"
    and "\<bar>x / 2 powr (of_int e - (real p - 1)) - of_int m\<bar> < 1 / 2"
  shows "ieee_round p emin x = of_int m * 2 powr (of_int e - (real p - 1))"
proof -
  have "0 < (2 :: real) powr of_int e"
    by simp
  with assms(1) have "0 < \<bar>x\<bar>"
    by linarith
  then have nz: "x \<noteq> 0" by simp
  have "\<lfloor>log 2 \<bar>x\<bar>\<rfloor> = e"
    using assms(1,2) by (rule floor_log2)
  with assms(3) have "max \<lfloor>log 2 \<bar>x\<bar>\<rfloor> emin = e"
    by simp
  with nz round_half_even_near [OF assms(4)] show ?thesis
    by (simp add: ieee_round_def Let_def)
qed

text \<open>A number half way between two neighbouring multiples rounds to the even one.\<close>

lemma ieee_round_tie:
  assumes "2 powr of_int e \<le> \<bar>x\<bar>" and "\<bar>x\<bar> < 2 powr (of_int e + 1)"
    and "emin \<le> e"
    and "x / 2 powr (of_int e - (real p - 1)) = of_int m + 1 / 2"
  shows "ieee_round p emin x
           = of_int (if even m then m else m + 1) * 2 powr (of_int e - (real p - 1))"
proof -
  have "0 < (2 :: real) powr of_int e"
    by simp
  with assms(1) have "0 < \<bar>x\<bar>"
    by linarith
  then have nz: "x \<noteq> 0" by simp
  have "\<lfloor>log 2 \<bar>x\<bar>\<rfloor> = e"
    using assms(1,2) by (rule floor_log2)
  with assms(3) have "max \<lfloor>log 2 \<bar>x\<bar>\<rfloor> emin = e"
    by simp
  with nz round_half_even_tie [OF assms(4)] show ?thesis
    by (simp add: ieee_round_def Let_def)
qed

subsection \<open>Values of \<open>float32\<close>\<close>

lemma float32_zero: "float32 0 = 0"
  by (simp add: float32_def ieee_round_def)

lemma float32_one: "float32 1 = 1"
proof -
  have "ieee_round 24 (- 126) 1 = of_int 8388608 * 2 powr (of_int 0 - (real 24 - 1))"
    by (rule ieee_round_near) (simp_all add: powr_minus)
  then show ?thesis
    by (simp add: float32_def powr_minus)
qed

text \<open>\<open>0.1\<close> is not a \<^verbatim>\<open>float32\<close>: it becomes \<open>0.100000001490116119384765625\<close>.\<close>

lemma float32_tenth: "float32 (1 / 10) = 13421773 / 134217728"
proof -
  have "ieee_round 24 (- 126) (1 / 10)
          = of_int 13421773 * 2 powr (of_int (- 4) - (real 24 - 1))"
    by (rule ieee_round_near) (simp_all add: powr_minus abs_less_iff)
  then show ?thesis
    by (simp add: float32_def powr_minus)
qed

text \<open>The integer \<open>2 ^ 24 + 1\<close> is half way between two \<^verbatim>\<open>float32\<close> numbers and becomes
  \<open>2 ^ 24\<close>.\<close>

lemma float32_tie: "float32 16777217 = 16777216"
proof -
  have "ieee_round 24 (- 126) 16777217
          = of_int (if even (8388608 :: int) then 8388608 else 8388608 + 1)
              * 2 powr (of_int 24 - (real 24 - 1))"
    by (rule ieee_round_tie) simp_all
  then show ?thesis
    by (simp add: float32_def)
qed

subsection \<open>Values of \<open>float64\<close>\<close>

lemma float64_zero: "float64 0 = 0"
  by (simp add: float64_def ieee_round_def)

lemma float64_one: "float64 1 = 1"
proof -
  have "ieee_round 53 (- 1022) 1 = of_int 4503599627370496 * 2 powr (of_int 0 - (real 53 - 1))"
    by (rule ieee_round_near) (simp_all add: powr_minus)
  then show ?thesis
    by (simp add: float64_def powr_minus)
qed

lemma float64_two: "float64 2 = 2"
proof -
  have "ieee_round 53 (- 1022) 2 = of_int 4503599627370496 * 2 powr (of_int 1 - (real 53 - 1))"
    by (rule ieee_round_near) (simp_all add: powr_minus)
  then show ?thesis
    by (simp add: float64_def powr_minus)
qed

lemma sqrt_two_bounds:
  "12738103345051545 / 9007199254740992 < sqrt 2"
  "sqrt 2 < 12738103345051547 / 9007199254740992"
proof -
  show "12738103345051545 / 9007199254740992 < sqrt 2"
    by (rule real_less_rsqrt) (simp add: power2_eq_square)
  show "sqrt 2 < 12738103345051547 / 9007199254740992"
    by (rule real_less_lsqrt) (simp_all add: power2_eq_square)
qed

text \<open>The square root of 2 as a \<^verbatim>\<open>float64\<close>: \<open>1.4142135623730951\<close>.\<close>

lemma float64_sqrt_two: "float64 (sqrt 2) = 6369051672525773 / 4503599627370496"
proof -
  have "ieee_round 53 (- 1022) (sqrt 2)
          = of_int 6369051672525773 * 2 powr (of_int 0 - (real 53 - 1))"
  proof (rule ieee_round_near)
    show "2 powr of_int 0 \<le> \<bar>sqrt 2\<bar>"
      using sqrt_two_bounds(1) by simp
    show "\<bar>sqrt 2\<bar> < 2 powr (of_int 0 + 1)"
      using sqrt_two_bounds(2) by simp
    show "- 1022 \<le> (0 :: int)"
      by simp
    show "\<bar>sqrt 2 / 2 powr (of_int 0 - (real 53 - 1)) - of_int 6369051672525773\<bar> < 1 / 2"
    proof -
      have eq: "sqrt 2 / 2 powr (of_int 0 - (real 53 - 1)) = sqrt 2 * 4503599627370496"
        by (simp add: powr_minus)
      have "\<bar>sqrt 2 * 4503599627370496 - 6369051672525773\<bar> < 1 / 2"
        unfolding abs_less_iff using sqrt_two_bounds by (intro conjI; linarith)
      then show ?thesis
        unfolding eq by simp
    qed
  qed
  then show ?thesis
    by (simp add: float64_def powr_minus)
qed

text \<open>Its square as a \<^verbatim>\<open>float64\<close>: \<open>2.0000000000000004\<close>.\<close>

lemma float64_norm_product:
  "float64 (6369051672525773 / 4503599627370496 * (6369051672525773 / 4503599627370496))
     = 4503599627370497 / 2251799813685248"
proof -
  have "ieee_round 53 (- 1022)
          (6369051672525773 / 4503599627370496 * (6369051672525773 / 4503599627370496))
          = of_int 4503599627370497 * 2 powr (of_int 1 - (real 53 - 1))"
    by (rule ieee_round_near) (simp_all add: powr_minus abs_less_iff)
  then show ?thesis
    by (simp add: float64_def powr_minus)
qed

text \<open>The quotient of 2 by that number as a \<^verbatim>\<open>float64\<close>: \<open>0.9999999999999998\<close>.\<close>

lemma float64_quotient:
  "float64 (2 / (4503599627370497 / 2251799813685248)) = 1 - 1 / 4503599627370496"
proof -
  have "ieee_round 53 (- 1022) (2 / (4503599627370497 / 2251799813685248))
          = of_int 9007199254740990 * 2 powr (of_int (- 1) - (real 53 - 1))"
    by (rule ieee_round_near) (simp_all add: powr_minus abs_less_iff)
  then show ?thesis
    by (simp add: float64_def powr_minus)
qed

subsection \<open>The relative error of rounding\<close>

text \<open>Away from underflow, rounding to \<open>p\<close> bits has relative error at most \<open>2 ^ (- p)\<close>.\<close>

lemma round_half_even_error: "\<bar>of_int (round_half_even x) - x\<bar> \<le> 1 / 2"
proof -
  have "of_int \<lfloor>x\<rfloor> \<le> x" and "x < of_int \<lfloor>x\<rfloor> + 1"
    by linarith+
  then show ?thesis
    by (auto simp: round_half_even_def Let_def abs_le_iff)
qed

lemma ieee_round_relative_error:
  assumes "2 powr of_int emin \<le> \<bar>x\<bar>"
  shows "relative_error_at (ieee_round p emin) (2 powr (- real p)) x"
proof -
  have "0 < (2 :: real) powr of_int emin"
    by simp
  with assms have pos: "0 < \<bar>x\<bar>"
    by linarith
  then have nz: "x \<noteq> 0"
    by simp
  define e where "e = \<lfloor>log 2 \<bar>x\<bar>\<rfloor>"
  have "of_int emin \<le> log 2 \<bar>x\<bar>"
    using assms pos by (simp add: le_log_iff)
  then have "emin \<le> e"
    unfolding e_def by (simp add: le_floor_iff)
  then have max: "max e emin = e"
    by simp
  have "of_int e \<le> log 2 \<bar>x\<bar>"
    unfolding e_def by simp
  then have lower: "2 powr of_int e \<le> \<bar>x\<bar>"
    using pos by (simp add: le_log_iff)
  define ulp :: real where "ulp = 2 powr (of_int e - (real p - 1))"
  have ulp_pos: "0 < ulp"
    by (simp add: ulp_def)
  have val: "ieee_round p emin x = of_int (round_half_even (x / ulp)) * ulp"
    using nz max by (simp add: ieee_round_def Let_def e_def [symmetric] ulp_def)
  have "of_int (round_half_even (x / ulp)) * ulp - x
          = (of_int (round_half_even (x / ulp)) - x / ulp) * ulp"
    using ulp_pos by (simp add: field_simps)
  then have "\<bar>of_int (round_half_even (x / ulp)) * ulp - x\<bar>
          = \<bar>of_int (round_half_even (x / ulp)) - x / ulp\<bar> * ulp"
    using ulp_pos by (simp only: abs_mult abs_of_pos)
  also have "\<dots> \<le> 1 / 2 * ulp"
    using round_half_even_error [of "x / ulp"] ulp_pos by (intro mult_right_mono) simp_all
  also have "1 / 2 * ulp = 2 powr of_int e * 2 powr (- real p)"
  proof -
    have "of_int e - (real p - 1) = of_int e + (- real p) + 1"
      by simp
    then have "ulp = 2 powr of_int e * 2 powr (- real p) * 2 powr 1"
      unfolding ulp_def by (simp only: powr_add)
    then show ?thesis
      by simp
  qed
  also have "\<dots> \<le> \<bar>x\<bar> * 2 powr (- real p)"
    using lower by (intro mult_right_mono) simp_all
  finally show ?thesis
    by (simp add: relative_error_at_def val mult.commute)
qed

lemma float64_relative_error:
  "2 powr (- 1022) \<le> \<bar>x\<bar> \<Longrightarrow> relative_error_at float64 (1 / 2 ^ 53) x"
  using ieee_round_relative_error [of "- 1022" x 53]
  by (simp add: float64_def [abs_def] powr_minus inverse_eq_divide)

lemma float64_relative_error_half:
  assumes "1 / 2 \<le> \<bar>x\<bar>"
  shows "relative_error_at float64 (1 / 2 ^ 53) x"
proof -
  have "(2 :: real) powr (- 1022) \<le> 2 powr (- 1)"
    by (intro powr_mono) simp_all
  also have "\<dots> = 1 / 2"
    by (simp add: powr_minus)
  finally show ?thesis
    using assms by (intro float64_relative_error) linarith
qed

section \<open>Cosine similarity\<close>

lemma sum_squares_nonneg: "0 \<le> sum_list (map (\<lambda>x. x * x) (v :: real list))"
  by (induction v) simp_all

lemma sum_squares_zero_iff:
  "sum_list (map (\<lambda>x. x * x) (v :: real list)) = 0 \<longleftrightarrow> (\<forall>x \<in> set v. x = 0)"
proof (induction v)
  case Nil
  show ?case by simp
next
  case (Cons x xs)
  have "x * x + sum_list (map (\<lambda>x. x * x) xs) = 0
          \<longleftrightarrow> x * x = 0 \<and> sum_list (map (\<lambda>x. x * x) xs) = 0"
    using sum_squares_nonneg [of xs] by (intro add_nonneg_eq_0_iff) simp_all
  with Cons show ?case by simp
qed

lemma np_linalg_norm_zero_iff: "np_linalg_norm v = 0 \<longleftrightarrow> (\<forall>x \<in> set v. x = 0)"
  by (simp add: np_linalg_norm_def sum_squares_zero_iff)

lemma zip_self_products:
  "sum_list (map (\<lambda>(x, y). x * y) (zip v v)) = sum_list (map (\<lambda>x. x * x) (v :: real list))"
  by (induction v) simp_all

lemma np_linalg_norm_square:
  "np_linalg_norm v * np_linalg_norm v = sum_list (map (\<lambda>x. x * x) v)"
  by (simp add: np_linalg_norm_def sum_squares_nonneg)

lemma zip_products_commute:
  "sum_list (map (\<lambda>(x, y). x * y) (zip a b))
     = sum_list (map (\<lambda>(x, y). x * y) (zip b (a :: real list)))"
proof (induction a arbitrary: b)
  case Nil
  show ?case by simp
next
  case (Cons x xs)
  show ?case by (cases b) (simp_all add: Cons.IH mult.commute)
qed

lemma np_dot_commute: "np_dot a b = np_dot b a"
  using zip_products_commute [of a b] by (auto simp: np_dot_def)

text \<open>
  Claim C1. For vectors \<open>a\<close> and \<open>b\<close> of one dimension, the similarity computed by the
  matcher is \<open>0\<close> when one of the two norms is \<open>0\<close>, and otherwise the quotient of the inner
  product by the product of the norms, whose divisor is then not \<open>0\<close>. In particular a
  vector of norm \<open>0\<close> has similarity \<open>0\<close> with itself.
\<close>

theorem cosine_similarity_formula:
  assumes "length a = length b"
  shows "cosine_similarity a b =
           Inr (if np_linalg_norm a = 0 \<or> np_linalg_norm b = 0 then 0
                else sum_list (map (\<lambda>(x, y). x * y) (zip a b))
                       / (np_linalg_norm a * np_linalg_norm b))
         \<and> (np_linalg_norm a \<noteq> 0 \<and> np_linalg_norm b \<noteq> 0
              \<longrightarrow> np_linalg_norm a * np_linalg_norm b \<noteq> 0)
         \<and> (np_linalg_norm a = 0 \<longrightarrow> cosine_similarity a a = Inr 0)"
  using assms by (simp add: cosine_similarity_def np_dot_def Let_def)

theorem cosine_similarity_formula_witness:
  "cosine_similarity [0, 0] [1, 0] = Inr 0 \<and> cosine_similarity [0, 0] [0, 0] = Inr 0"
  using cosine_similarity_formula [of "[0, 0]" "[1, 0]"]
  by (simp add: np_linalg_norm_def)

subsection \<open>Symmetry, the zero vector and the similarity of a vector with itself\<close>

lemma cosine_similarity_exact_properties:
  "cosine_similarity a b = cosine_similarity b a
   \<and> ((\<exists>x \<in> set a. x \<noteq> 0) \<longrightarrow> cosine_similarity a a = Inr 1)
   \<and> (length a = length b \<and> ((\<forall>x \<in> set a. x = 0) \<or> (\<forall>x \<in> set b. x = 0))
        \<longrightarrow> cosine_similarity a b = Inr 0)"
proof (intro conjI impI)
  show "cosine_similarity a b = cosine_similarity b a"
    unfolding cosine_similarity_def np_dot_commute [of a b] Let_def
    by (cases "np_dot b a") (auto simp: mult.commute)
next
  assume nz: "\<exists>x \<in> set a. x \<noteq> 0"
  then have n: "np_linalg_norm a \<noteq> 0"
    by (simp add: np_linalg_norm_zero_iff)
  have "np_dot a a = Inr (np_linalg_norm a * np_linalg_norm a)"
    by (simp add: np_dot_def zip_self_products np_linalg_norm_square)
  with n show "cosine_similarity a a = Inr 1"
    by (simp add: cosine_similarity_def Let_def)
next
  assume "length a = length b \<and> ((\<forall>x \<in> set a. x = 0) \<or> (\<forall>x \<in> set b. x = 0))"
  then have len: "length a = length b"
    and z: "np_linalg_norm a = 0 \<or> np_linalg_norm b = 0"
    by (simp_all add: np_linalg_norm_zero_iff)
  from len z show "cosine_similarity a b = Inr 0"
    by (auto simp: cosine_similarity_def np_dot_def Let_def)
qed

text \<open>Without rounding, the second embedding is the first.\<close>

lemma foldl_products_exact:
  "foldl (\<lambda>acc (x, y). acc + x * y) s zs = s + sum_list (map (\<lambda>(x, y). x * y) zs)"
  for s :: real
  by (induction zs arbitrary: s) (auto simp: algebra_simps)

lemma cosine_similarity_rounded_exact:
  "cosine_similarity_rounded (\<lambda>x. x) a b = cosine_similarity a b"
  by (simp add: cosine_similarity_rounded_def cosine_similarity_def dot_rounded_def
      norm_rounded_def np_dot_def np_linalg_norm_def foldl_products_exact zip_self_products)

text \<open>Rounding keeps the symmetry: the two calls do the same operations on the same
  numbers.\<close>

lemma foldl_products_commute:
  "foldl (\<lambda>acc (x, y). fl (acc + fl (x * y))) s (zip a b)
     = foldl (\<lambda>acc (x, y). fl (acc + fl (x * y))) s (zip b a)"
  for s :: real
proof (induction a arbitrary: b s)
  case Nil
  show ?case by simp
next
  case (Cons x xs)
  show ?case by (cases b) (simp_all add: Cons.IH mult.commute)
qed

lemma dot_rounded_commute: "dot_rounded fl a b = dot_rounded fl b a"
  using foldl_products_commute [of fl 0 a b] by (auto simp: dot_rounded_def)

lemma cosine_similarity_rounded_commute:
  "cosine_similarity_rounded fl a b = cosine_similarity_rounded fl b a"
  unfolding cosine_similarity_rounded_def dot_rounded_commute [of fl a b] Let_def
  by (cases "dot_rounded fl b a") (auto simp: mult.commute)

text \<open>A rounding that keeps 0 keeps the similarity 0 of the zero vector.\<close>

lemma foldl_products_zero_left:
  assumes "fl 0 = 0" and "\<forall>x \<in> set a. x = 0"
  shows "foldl (\<lambda>acc (x, y). fl (acc + fl (x * y))) 0 (zip a b) = (0 :: real)"
  using assms(2)
proof (induction a arbitrary: b)
  case Nil
  show ?case by simp
next
  case (Cons x xs)
  then show ?case by (cases b) (simp_all add: assms(1))
qed

lemma norm_rounded_zero:
  assumes "fl 0 = 0" and "\<forall>x \<in> set a. x = 0"
  shows "norm_rounded fl a = 0"
  using foldl_products_zero_left [of fl a a] assms by (simp add: norm_rounded_def)

lemma cosine_similarity_rounded_zero:
  assumes "fl 0 = 0" and "length a = length b"
    and "(\<forall>x \<in> set a. x = 0) \<or> (\<forall>x \<in> set b. x = 0)"
  shows "cosine_similarity_rounded fl a b = Inr 0"
proof -
  from assms(1,3) have "norm_rounded fl a = 0 \<or> norm_rounded fl b = 0"
    using norm_rounded_zero by blast
  with assms(2) show ?thesis
    by (auto simp: cosine_similarity_rounded_def dot_rounded_def Let_def)
qed

text \<open>With roundings of relative error at most \<open>u\<close>, the similarity of a vector with
  itself is \<open>1\<close> up to a factor between \<open>(1 - u) / (1 + u) ^ 3\<close> and
  \<open>(1 + u) / (1 - u) ^ 3\<close>: the norm is computed from the same inner product, which
  cancels, and the square root, the product of the norms and the quotient each round
  once or twice.\<close>

lemma relative_error_bounds:
  assumes "relative_error_at fl u x" and "0 < x"
  shows "(1 - u) * x \<le> fl x" and "fl x \<le> (1 + u) * x"
  using assms by (simp_all add: relative_error_at_def abs_le_iff algebra_simps)

lemma self_similarity_rounded:
  assumes u: "0 \<le> u" "u < 1"
    and dot: "dot_rounded fl a a = Inr d" and d: "0 < d"
    and e1: "relative_error_at fl u (sqrt d)"
    and e2: "relative_error_at fl u (fl (sqrt d) * fl (sqrt d))"
    and e3: "relative_error_at fl u (d / fl (fl (sqrt d) * fl (sqrt d)))"
  shows "\<exists>s. cosine_similarity_rounded fl a a = Inr s
           \<and> (1 - u) / (1 + u) ^ 3 \<le> s \<and> s \<le> (1 + u) / (1 - u) ^ 3"
proof -
  define r where "r = sqrt d"
  define n where "n = fl r"
  define p where "p = fl (n * n)"
  define t where "t = d / p"
  have r: "0 < r" and rr: "r * r = d"
    using d by (simp_all add: r_def)
  have lo: "0 < 1 - u" and hi: "0 < 1 + u"
    using u by simp_all
  have n_lo: "(1 - u) * r \<le> n" and n_hi: "n \<le> (1 + u) * r"
    using relative_error_bounds [OF e1 [folded r_def] r] by (simp_all add: n_def)
  have n_pos: "0 < n"
    using n_lo lo r by (meson less_le_trans mult_pos_pos)
  have nn_pos: "0 < n * n"
    using n_pos by simp
  have nn_lo: "((1 - u) * r) * ((1 - u) * r) \<le> n * n"
    using n_lo lo r n_pos by (intro mult_mono) simp_all
  have nn_hi: "n * n \<le> ((1 + u) * r) * ((1 + u) * r)"
    using n_hi n_pos by (intro mult_mono) simp_all
  have p_lo: "(1 - u) * (n * n) \<le> p" and p_hi: "p \<le> (1 + u) * (n * n)"
    using relative_error_bounds [OF e2 [folded r_def, folded n_def] nn_pos]
    by (simp_all add: p_def)
  have "(1 - u) * (((1 - u) * r) * ((1 - u) * r)) \<le> (1 - u) * (n * n)"
    using nn_lo lo by (intro mult_left_mono) simp_all
  with p_lo have "(1 - u) * (((1 - u) * r) * ((1 - u) * r)) \<le> p"
    by linarith
  then have p_lo': "(1 - u) ^ 3 * d \<le> p"
    by (simp add: power3_eq_cube rr [symmetric] algebra_simps)
  have "(1 + u) * (n * n) \<le> (1 + u) * (((1 + u) * r) * ((1 + u) * r))"
    using nn_hi hi by (intro mult_left_mono) simp_all
  with p_hi have "p \<le> (1 + u) * (((1 + u) * r) * ((1 + u) * r))"
    by linarith
  then have p_hi': "p \<le> (1 + u) ^ 3 * d"
    by (simp add: power3_eq_cube rr [symmetric] algebra_simps)
  have lo3: "0 < (1 - u) ^ 3" and hi3: "0 < (1 + u) ^ 3"
    using lo hi by simp_all
  have p_pos: "0 < p"
    using p_lo' lo3 d by (meson less_le_trans mult_pos_pos)
  have t_pos: "0 < t"
    using d p_pos by (simp add: t_def)
  have t_lo: "1 / (1 + u) ^ 3 \<le> t"
  proof -
    have "d / ((1 + u) ^ 3 * d) \<le> d / p"
      using p_hi' p_pos d by (intro divide_left_mono) (simp_all add: hi3)
    then show ?thesis
      using d by (simp add: t_def)
  qed
  have t_hi: "t \<le> 1 / (1 - u) ^ 3"
  proof -
    have "d / p \<le> d / ((1 - u) ^ 3 * d)"
      using p_lo' p_pos d lo3 by (intro divide_left_mono) simp_all
    then show ?thesis
      using d by (simp add: t_def)
  qed
  have s_lo: "(1 - u) * t \<le> fl t" and s_hi: "fl t \<le> (1 + u) * t"
    using relative_error_bounds
      [OF e3 [folded r_def, folded n_def, folded p_def, folded t_def] t_pos]
    by simp_all
  have "(1 - u) * (1 / (1 + u) ^ 3) \<le> (1 - u) * t"
    using t_lo lo by (intro mult_left_mono) simp_all
  with s_lo have res_lo: "(1 - u) / (1 + u) ^ 3 \<le> fl t"
    by simp
  have "(1 + u) * t \<le> (1 + u) * (1 / (1 - u) ^ 3)"
    using t_hi hi by (intro mult_left_mono) simp_all
  with s_hi have res_hi: "fl t \<le> (1 + u) / (1 - u) ^ 3"
    by simp
  have norm: "norm_rounded fl a = n"
    using dot by (simp add: norm_rounded_def dot_rounded_def n_def r_def)
  have "cosine_similarity_rounded fl a a = Inr (fl t)"
    using n_pos by (simp add: cosine_similarity_rounded_def dot norm t_def p_def)
  with res_lo res_hi show ?thesis
    by blast
qed

text \<open>
  Claim C7, as the code has it. In the arithmetic of the code, whatever its rounding,
  the similarity is symmetric in its two arguments, and it is \<open>0\<close> for two vectors of one
  dimension of which one is the zero vector (for a rounding that keeps 0, as every
  floating-point format does). The similarity of a vector with a non-zero component
  with itself is \<open>1\<close> in exact arithmetic; in rounded arithmetic it is \<open>1\<close> up to
  rounding: when the inner product of the vector with itself is positive and the square
  root, the product of the norms and the quotient are rounded with relative error at most
  \<open>u\<close>, it lies between \<open>(1 - u) / (1 + u) ^ 3\<close> and \<open>(1 + u) / (1 - u) ^ 3\<close>.
\<close>

theorem cosine_similarity_rounded_properties:
  "cosine_similarity_rounded fl a b = cosine_similarity_rounded fl b a
   \<and> (fl 0 = 0 \<and> length a = length b
        \<and> ((\<forall>x \<in> set a. x = 0) \<or> (\<forall>x \<in> set b. x = 0))
        \<longrightarrow> cosine_similarity_rounded fl a b = Inr 0)
   \<and> ((\<exists>x \<in> set a. x \<noteq> 0) \<longrightarrow> cosine_similarity_rounded (\<lambda>x. x) a a = Inr 1)
   \<and> (0 \<le> u \<and> u < 1 \<and> dot_rounded fl a a = Inr d \<and> 0 < d
        \<and> relative_error_at fl u (sqrt d)
        \<and> relative_error_at fl u (fl (sqrt d) * fl (sqrt d))
        \<and> relative_error_at fl u (d / fl (fl (sqrt d) * fl (sqrt d)))
        \<longrightarrow> (\<exists>s. cosine_similarity_rounded fl a a = Inr s
               \<and> (1 - u) / (1 + u) ^ 3 \<le> s \<and> s \<le> (1 + u) / (1 - u) ^ 3))"
proof (intro conjI impI)
  show "cosine_similarity_rounded fl a b = cosine_similarity_rounded fl b a"
    by (rule cosine_similarity_rounded_commute)
next
  assume "fl 0 = 0 \<and> length a = length b
      \<and> ((\<forall>x \<in> set a. x = 0) \<or> (\<forall>x \<in> set b. x = 0))"
  then show "cosine_similarity_rounded fl a b = Inr 0"
    using cosine_similarity_rounded_zero [of fl a b] by blast
next
  assume "\<exists>x \<in> set a. x \<noteq> 0"
  then show "cosine_similarity_rounded (\<lambda>x. x) a a = Inr 1"
    using cosine_similarity_exact_properties [of a a]
    by (simp add: cosine_similarity_rounded_exact)
next
  assume "0 \<le> u \<and> u < 1 \<and> dot_rounded fl a a = Inr d \<and> 0 < d
      \<and> relative_error_at fl u (sqrt d)
      \<and> relative_error_at fl u (fl (sqrt d) * fl (sqrt d))
      \<and> relative_error_at fl u (d / fl (fl (sqrt d) * fl (sqrt d)))"
  then show "\<exists>s. cosine_similarity_rounded fl a a = Inr s
      \<and> (1 - u) / (1 + u) ^ 3 \<le> s \<and> s \<le> (1 + u) / (1 - u) ^ 3"
    using self_similarity_rounded [of u fl a d] by blast
qed

theorem cosine_similarity_rounded_properties_witness:
  "cosine_similarity_rounded float64 [1, 1] [0, 0] = cosine_similarity_rounded float64 [0, 0] [1, 1]
   \<and> cosine_similarity_rounded float64 [1, 1] [0, 0] = Inr 0
   \<and> cosine_similarity_rounded (\<lambda>x. x) [1, 1] [1, 1] = Inr 1
   \<and> (\<exists>s. cosine_similarity_rounded float64 [1, 1] [1, 1] = Inr s
         \<and> (1 - 1 / 2 ^ 53) / (1 + 1 / 2 ^ 53) ^ 3 \<le> s
         \<and> s \<le> (1 + 1 / 2 ^ 53) / (1 - 1 / 2 ^ 53) ^ 3)"
proof -
  have nonzero: "\<exists>x \<in> set [1, 1 :: real]. x \<noteq> 0"
    by simp
  have zero: "float64 0 = 0 \<and> length [1, 1 :: real] = length [0, 0 :: real]
      \<and> ((\<forall>x \<in> set [1, 1 :: real]. x = 0) \<or> (\<forall>x \<in> set [0, 0 :: real]. x = 0))"
    by (simp add: float64_zero)
  have dot: "dot_rounded float64 [1, 1] [1, 1] = Inr 2"
    by (simp add: dot_rounded_def float64_zero float64_one float64_two)
  have e1: "relative_error_at float64 (1 / 2 ^ 53) (sqrt 2)"
    using sqrt_two_bounds(1) by (intro float64_relative_error_half) simp
  have e2: "relative_error_at float64 (1 / 2 ^ 53) (float64 (sqrt 2) * float64 (sqrt 2))"
    unfolding float64_sqrt_two by (intro float64_relative_error_half) simp
  have e3: "relative_error_at float64 (1 / 2 ^ 53)
              (2 / float64 (float64 (sqrt 2) * float64 (sqrt 2)))"
    unfolding float64_sqrt_two float64_norm_product
    by (intro float64_relative_error_half) simp
  have "(0 :: real) \<le> 1 / 2 ^ 53 \<and> (1 :: real) / 2 ^ 53 < 1
      \<and> dot_rounded float64 [1, 1] [1, 1] = Inr 2 \<and> (0 :: real) < 2
      \<and> relative_error_at float64 (1 / 2 ^ 53) (sqrt 2)
      \<and> relative_error_at float64 (1 / 2 ^ 53) (float64 (sqrt 2) * float64 (sqrt 2))
      \<and> relative_error_at float64 (1 / 2 ^ 53)
          (2 / float64 (float64 (sqrt 2) * float64 (sqrt 2)))"
    using dot e1 e2 e3 by simp
  with nonzero zero show ?thesis
    using cosine_similarity_rounded_properties
      [where fl = float64 and a = "[1, 1]" and b = "[0, 0]" and u = "1 / 2 ^ 53" and d = 2]
    by blast
qed

text \<open>
  The claim as stated fails in the floating-point arithmetic of the code: on the
  \<^verbatim>\<open>float64\<close> array \<open>[1, 1]\<close> the inner product is \<open>2\<close>, the norm is the rounded square
  root \<open>1.4142135623730951\<close>, the rounded product of the norms is
  \<open>2.0000000000000004\<close>, and the similarity of the vector with itself is
  \<open>0.9999999999999998\<close>, not \<open>1\<close>.
\<close>

theorem cosine_similarity_binary64_not_one:
  "cosine_similarity_rounded float64 [1, 1] [1, 1] = Inr (1 - 1 / 4503599627370496)
   \<and> (1 - 1 / 4503599627370496 :: real) \<noteq> 1"
proof -
  have dot: "dot_rounded float64 [1, 1] [1, 1] = Inr 2"
    by (simp add: dot_rounded_def float64_zero float64_one float64_two)
  have norm: "norm_rounded float64 [1, 1] = 6369051672525773 / 4503599627370496"
    by (simp add: norm_rounded_def float64_zero float64_one float64_two float64_sqrt_two)
  have "cosine_similarity_rounded float64 [1, 1] [1, 1] = Inr (1 - 1 / 4503599627370496)"
    unfolding cosine_similarity_rounded_def dot norm Let_def sum.case
      float64_norm_product float64_quotient
    by simp
  then show ?thesis
    by simp
qed

section \<open>Aggregation of the feature vectors\<close>

lemma np_mean_axis0_length: "length (np_mean_axis0 rows) = length (hd rows)"
  by (simp add: np_mean_axis0_def)

lemma np_mean_axis0_nth:
  "i < length (hd rows)
   \<Longrightarrow> np_mean_axis0 rows ! i = sum_list (map (\<lambda>row. row ! i) rows) / real (length rows)"
  by (simp add: np_mean_axis0_def)

lemma calculate_target_vector_kept:
  assumes "character_features \<noteq> []"
  shows "calculate_target_vector character_features =
           Some (np_mean_axis0
                  (filter (\<lambda>vec. length vec = length (hd character_features))
                     character_features))"
proof -
  obtain first rest where cf: "character_features = first # rest"
    using assms by (cases character_features) auto
  show ?thesis
  proof (cases "list_all (\<lambda>vec. length vec = length first) rest")
    case True
    then have "filter (\<lambda>vec. length vec = length first) rest = rest"
      by (simp add: list_all_iff)
    with True show ?thesis
      by (simp add: cf calculate_target_vector_def)
  next
    case False
    then show ?thesis
      by (simp add: cf calculate_target_vector_def)
  qed
qed

text \<open>
  Claim C3, as the code has it. The aggregation keeps the vectors that have the length of
  the first vector of the sequence (not the vectors of length 7). It returns \<open>None\<close>
  exactly when the sequence is empty: the first vector is always kept. Otherwise it
  returns the componentwise arithmetic mean of the kept vectors.
\<close>

theorem calculate_target_vector_first_length:
  "(calculate_target_vector character_features = None \<longleftrightarrow> character_features = [])
   \<and> (character_features \<noteq> [] \<longrightarrow>
        (\<exists>target kept.
            kept = filter (\<lambda>vec. length vec = length (hd character_features))
                     character_features
          \<and> kept \<noteq> []
          \<and> calculate_target_vector character_features = Some target
          \<and> length target = length (hd character_features)
          \<and> (\<forall>i < length (hd character_features).
                target ! i = sum_list (map (\<lambda>vec. vec ! i) kept) / real (length kept))))"
proof (cases "character_features = []")
  case True
  then show ?thesis
    by (simp add: calculate_target_vector_def)
next
  case False
  then obtain first rest where cf: "character_features = first # rest"
    by (cases character_features) auto
  let ?kept = "filter (\<lambda>vec. length vec = length (hd character_features)) character_features"
  have hd_kept: "hd ?kept = first" and ne: "?kept \<noteq> []"
    by (simp_all add: cf)
  have res: "calculate_target_vector character_features = Some (np_mean_axis0 ?kept)"
    using False by (rule calculate_target_vector_kept)
  have len: "length (np_mean_axis0 ?kept) = length (hd character_features)"
    by (simp add: np_mean_axis0_length hd_kept cf)
  have nth: "\<forall>i < length (hd character_features).
      np_mean_axis0 ?kept ! i = sum_list (map (\<lambda>vec. vec ! i) ?kept) / real (length ?kept)"
    using np_mean_axis0_nth [of _ ?kept] by (simp add: hd_kept cf)
  from False res ne len nth show ?thesis
    by simp
qed

theorem calculate_target_vector_first_length_witness:
  "calculate_target_vector [[1, 2], [1, 2, 3, 4, 5, 6, 7], [3, 6]] = Some [2, 4]"
  using calculate_target_vector_first_length [of "[[1, 2], [1, 2, 3, 4, 5, 6, 7], [3, 6]]"]
  by (simp add: calculate_target_vector_def np_mean_axis0_def)

text \<open>
  The claim as stated fails: a first vector of length 2 is kept and decides the
  dimension, the 7-component vector after it is dropped, and the result is not the mean
  of the vectors of length 7.
\<close>

theorem calculate_target_vector_not_seven:
  "calculate_target_vector [[1, 2], [1, 2, 3, 4, 5, 6, 7]] = Some [1, 2]
   \<and> filter (\<lambda>vec. length vec = 7) [[1, 2], [1, 2, 3, 4, 5, 6, 7 :: real]]
       = [[1, 2, 3, 4, 5, 6, 7]]
   \<and> np_mean_axis0 [[1, 2, 3, 4, 5, 6, 7]] \<noteq> [1, 2]"
  by (simp add: calculate_target_vector_def np_mean_axis0_def)

section \<open>Ranking\<close>

lemma cosine_similarity_total:
  "length a = length b \<Longrightarrow> \<exists>s. cosine_similarity a b = Inr s"
  by (simp add: cosine_similarity_def np_dot_def Let_def)

lemma score_loop_total:
  assumes "\<forall>entry \<in> set db. length (snd entry) = length t"
  shows "\<exists>new. score_loop t db acc = Inr (acc @ new)
           \<and> list_all2 (\<lambda>entry item. fst item = fst entry
                           \<and> cosine_similarity t (snd entry) = Inr (snd item)) db new"
  using assms
proof (induction db arbitrary: acc)
  case Nil
  show ?case by simp
next
  case (Cons entry rest)
  obtain font_name db_vector where e: "entry = (font_name, db_vector)"
    by (cases entry)
  from Cons.prems e have "length t = length db_vector"
    by simp
  then obtain s where s: "cosine_similarity t db_vector = Inr s"
    using cosine_similarity_total by blast
  from Cons.prems have "\<forall>entry \<in> set rest. length (snd entry) = length t"
    by simp
  from Cons.IH [OF this, of "acc @ [(font_name, s)]"]
  obtain new where new: "score_loop t rest (acc @ [(font_name, s)]) = Inr (acc @ [(font_name, s)] @ new)"
    and rel: "list_all2 (\<lambda>entry item. fst item = fst entry
                           \<and> cosine_similarity t (snd entry) = Inr (snd item)) rest new"
    by auto
  show ?case
    using e s new rel by (intro exI [of _ "(font_name, s) # new"]) simp
qed

lemma sort_scores_mset: "mset (sort_scores scores) = mset scores"
  by (simp add: sort_scores_def)

lemma sort_scores_descending:
  "sorted_wrt (\<lambda>x y. snd x \<ge> snd y) (sort_scores scores)"
proof -
  have "sorted (map (\<lambda>item. - snd item) (sort_scores scores))"
    by (simp add: sort_scores_def)
  then show ?thesis
    by (simp add: sorted_wrt_map)
qed

lemma sort_scores_stable:
  "filter (\<lambda>item. snd item = k) (sort_scores scores) = filter (\<lambda>item. snd item = k) scores"
  using sort_key_stable [of "\<lambda>item. - snd item" "- k" scores]
  by (simp add: sort_scores_def)

text \<open>The three properties determine the ranking: a rearrangement of the scores that
  is sorted by descending similarity and keeps the order of the scores among equal
  similarities is the list that the sort produces.\<close>

lemma sort_scores_unique:
  assumes "mset ranked = mset scores"
    and "sorted_wrt (\<lambda>x y. snd x \<ge> snd y) ranked"
    and "\<forall>k. filter (\<lambda>item. snd item = k) ranked = filter (\<lambda>item. snd item = k) scores"
  shows "ranked = sort_scores scores"
proof -
  have "sorted (map (\<lambda>item. - snd item) ranked)"
    using assms(2) by (simp add: sorted_wrt_map)
  moreover have "filter (\<lambda>x. - snd k = - snd x) ranked = filter (\<lambda>x. - snd k = - snd x) scores"
    for k :: "string \<times> real"
  proof -
    have "(\<lambda>x :: string \<times> real. - snd k = - snd x) = (\<lambda>item. snd item = snd k)"
      by auto
    with assms(3) show ?thesis by simp
  qed
  ultimately have "sort_key (\<lambda>item. - snd item) scores = ranked"
    using assms(1) by (intro properties_for_sort_key) simp_all
  then show ?thesis
    by (simp add: sort_scores_def)
qed

lemma slice_to_nonneg: "0 \<le> n \<Longrightarrow> slice_to xs n = take (nat n) xs"
  by (simp add: slice_to_def)

text \<open>
  Claim C2. When the feature vectors aggregate to a target, the
  database is not empty, every database vector has the target's dimension and
  \<open>top_n\<close> is not negative, the matcher computes one (font, similarity) pair for every
  database entry, in the database's order; the ranking is a rearrangement of these pairs,
  sorted by descending similarity, in which pairs of equal similarity keep the
  database's order; and the result is the first \<open>top_n\<close> pairs of the ranking, so it has
  at most \<open>top_n\<close> pairs.
\<close>

theorem find_best_matches_ranking:
  assumes "calculate_target_vector character_features = Some target"
    and "font_database \<noteq> []"
    and "\<forall>entry \<in> set font_database. length (snd entry) = length target"
    and "0 \<le> top_n"
  shows "\<exists>scores ranked.
           list_all2 (\<lambda>entry item. fst item = fst entry
                        \<and> cosine_similarity target (snd entry) = Inr (snd item))
             font_database scores
         \<and> mset ranked = mset scores
         \<and> sorted_wrt (\<lambda>x y. snd x \<ge> snd y) ranked
         \<and> (\<forall>k. filter (\<lambda>item. snd item = k) ranked = filter (\<lambda>item. snd item = k) scores)
         \<and> find_best_matches font_database character_features top_n
              = Inr (take (nat top_n) ranked)
         \<and> int (length (take (nat top_n) ranked)) \<le> top_n"
proof -
  obtain font_name sample_db_vector rest
    where db: "font_database = (font_name, sample_db_vector) # rest"
    using assms(2) by (cases font_database) auto
  from assms(3) db have sample: "length target = length sample_db_vector"
    by simp
  from score_loop_total [OF assms(3), of "[]"]
  obtain scores where loop: "score_loop target font_database [] = Inr scores"
    and rel: "list_all2 (\<lambda>entry item. fst item = fst entry
                \<and> cosine_similarity target (snd entry) = Inr (snd item)) font_database scores"
    by auto
  have "find_best_matches font_database character_features top_n
          = Inr (slice_to (sort_scores scores) top_n)"
    using assms(1) sample loop [unfolded db]
    by (simp add: find_best_matches_def db)
  then have res: "find_best_matches font_database character_features top_n
          = Inr (take (nat top_n) (sort_scores scores))"
    using assms(4) by (simp add: slice_to_nonneg)
  have len: "int (length (take (nat top_n) (sort_scores scores))) \<le> top_n"
    using assms(4) by simp
  show ?thesis
    using rel res len sort_scores_mset [of scores] sort_scores_descending [of scores]
      sort_scores_stable [of _ scores]
    by (intro exI [of _ scores] exI [of _ "sort_scores scores"]) simp
qed

theorem find_best_matches_ranking_witness:
  "find_best_matches [(''A'', [0, 1]), (''B'', [1, 0]), (''C'', [0, 2]), (''D'', [2, 0])] [[1, 0]] 3
     = Inr [(''B'', 1), (''D'', 1), (''A'', 0)]"
proof -
  have t: "calculate_target_vector [[1, 0]] = Some [1, 0]"
    by (simp add: calculate_target_vector_def np_mean_axis0_def)
  have "\<forall>entry \<in> set [(''A'', [0, 1]), (''B'', [1, 0]), (''C'', [0, 2]), (''D'', [2, 0 :: real])].
          length (snd entry) = length [1, 0 :: real]"
    by simp
  from find_best_matches_ranking [OF t _ this, of 3]
  show ?thesis
    by (simp add: find_best_matches_def t cosine_similarity_def np_dot_def
        np_linalg_norm_def slice_to_def sort_scores_def)
qed

text \<open>
  Claim C4, as the code has it. When the target's dimension differs from the dimension of
  the first vector of the database, the matcher raises nothing and returns the empty
  list.
\<close>

theorem find_best_matches_dimension_mismatch:
  assumes "calculate_target_vector character_features = Some target"
    and "font_database = (font_name, sample_db_vector) # rest"
    and "length target \<noteq> length sample_db_vector"
  shows "find_best_matches font_database character_features top_n = Inr []"
  using assms by (simp add: find_best_matches_def)

theorem find_best_matches_dimension_mismatch_witness:
  "calculate_target_vector [[1, 2]] = Some [1, 2]
   \<and> find_best_matches [(''A'', [1, 2, 3])] [[1, 2]] 5 = Inr []"
proof -
  have t: "calculate_target_vector [[1, 2]] = Some [1, 2]"
    by (simp add: calculate_target_vector_def np_mean_axis0_def)
  from find_best_matches_dimension_mismatch [OF t, of "[(''A'', [1, 2, 3])]" "''A''" "[1, 2, 3]" "[]" 5]
  show ?thesis
    using t by simp
qed

text \<open>
  The claim as stated fails: a target of dimension 2 against a database of dimension 3
  gives the same result, the empty list, as a request without any feature vector.
\<close>

theorem find_best_matches_mismatch_is_no_match:
  "find_best_matches [(''A'', [1, 2, 3])] [[1, 2]] 5 = Inr []
   \<and> find_best_matches [(''A'', [1, 2, 3])] [] 5 = Inr []"
  by (simp add: find_best_matches_def calculate_target_vector_def np_mean_axis0_def)

subsection \<open>Two requests in a row\<close>

text \<open>The guarantees of the sort leave one result: it is the list that \<open>sort_scores\<close>
  computes.\<close>

lemma sorted_by_score_unique:
  assumes "sorted_by_score scores ranked"
  shows "ranked = sort_scores scores"
proof -
  from assms have perm: "mset ranked = mset scores"
    and desc: "sorted_wrt (\<lambda>x y. snd x \<ge> snd y) ranked"
    and stable: "\<forall>k \<in> set (map snd scores).
        filter (\<lambda>item. snd item = k) ranked = filter (\<lambda>item. snd item = k) scores"
    by (simp_all add: sorted_by_score_def)
  have "filter (\<lambda>item. snd item = k) ranked = filter (\<lambda>item. snd item = k) scores" for k
  proof (cases "k \<in> set (map snd scores)")
    case True
    with stable show ?thesis by blast
  next
    case False
    then have "\<forall>item \<in> set scores. snd item \<noteq> k"
      by auto
    moreover from this perm have "\<forall>item \<in> set ranked. snd item \<noteq> k"
      using mset_eq_setD by blast
    ultimately show ?thesis
      by (simp add: filter_False)
  qed
  then show ?thesis
    using perm desc by (intro sort_scores_unique) simp_all
qed

lemma sorted_by_score_sort_scores: "sorted_by_score scores (sort_scores scores)"
  by (simp add: sorted_by_score_def sort_scores_mset sort_scores_descending sort_scores_stable)

text \<open>Every run returns what the function \<open>find_best_matches\<close> computes and leaves the
  object as it was, and the function's result is the outcome of a run.\<close>

lemma find_best_matches_run_outcome:
  assumes "find_best_matches_run self character_features top_n outcome"
  shows "outcome = (find_best_matches (self_font_database self) character_features top_n, self)"
  using assms
proof cases
  case run_empty_database
  then show ?thesis by (simp add: find_best_matches_def)
next
  case (run_no_target font_name sample_db_vector rest)
  then show ?thesis by (simp add: find_best_matches_def)
next
  case (run_dimension_mismatch font_name sample_db_vector rest target_vector)
  then show ?thesis by (simp add: find_best_matches_def)
next
  case (run_raises font_name sample_db_vector rest target_vector e)
  from run_raises(5) show ?thesis
    unfolding run_raises(2) using run_raises(1,3,4)
    by (simp add: find_best_matches_def)
next
  case (run_ranked font_name sample_db_vector rest target_vector scores ranked)
  from run_ranked(6) have "ranked = sort_scores scores"
    by (rule sorted_by_score_unique)
  with run_ranked(5) show ?thesis
    unfolding run_ranked(2) using run_ranked(1,3,4)
    by (simp add: find_best_matches_def)
qed

lemma find_best_matches_run_exists:
  "find_best_matches_run self character_features top_n
     (find_best_matches (self_font_database self) character_features top_n, self)"
proof (cases "self_font_database self")
  case Nil
  then show ?thesis
    by (simp add: find_best_matches_def run_empty_database)
next
  case (Cons entry rest)
  obtain font_name sample_db_vector where entry: "entry = (font_name, sample_db_vector)"
    by (cases entry)
  note db = Cons [unfolded entry]
  show ?thesis
  proof (cases "calculate_target_vector character_features")
    case None
    with db show ?thesis
      by (simp add: find_best_matches_def run_no_target)
  next
    case (Some target_vector)
    show ?thesis
    proof (cases "length target_vector = length sample_db_vector")
      case False
      with db Some show ?thesis
        by (simp add: find_best_matches_def run_dimension_mismatch)
    next
      case True
      show ?thesis
      proof (cases "score_loop target_vector (self_font_database self) []")
        case (Inl e)
        from run_raises [OF db Some True Inl, of top_n]
        show ?thesis
          using db Some True Inl [unfolded db] by (simp add: find_best_matches_def)
      next
        case (Inr scores)
        from run_ranked [OF db Some True Inr sorted_by_score_sort_scores, of top_n]
        show ?thesis
          using db Some True Inr [unfolded db] by (simp add: find_best_matches_def)
      qed
    qed
  qed
qed

text \<open>
  Claim C8. Two calls of the matcher in a row, the second on the object as the first
  left it, with feature vectors that aggregate to the same target vector and with the same
  \<open>top_n\<close>: the two outcomes are the same, the same pairs in the same order, and the
  object is after the calls what it was before them. The order of the database and
  the stability of the sort leave the run no choice.
\<close>

theorem find_best_matches_run_deterministic:
  assumes "find_best_matches_run self features1 top_n (out1, self1)"
    and "find_best_matches_run self1 features2 top_n (out2, self2)"
    and "calculate_target_vector features1 = calculate_target_vector features2"
  shows "out1 = out2 \<and> self1 = self \<and> self2 = self"
proof -
  from find_best_matches_run_outcome [OF assms(1)]
  have first: "out1 = find_best_matches (self_font_database self) features1 top_n"
    and unchanged: "self1 = self"
    by simp_all
  from find_best_matches_run_outcome [OF assms(2)]
  have second: "out2 = find_best_matches (self_font_database self1) features2 top_n"
    and unchanged': "self2 = self1"
    by simp_all
  have "find_best_matches (self_font_database self) features1 top_n
          = find_best_matches (self_font_database self) features2 top_n"
    unfolding find_best_matches_def assms(3) ..
  with first second unchanged unchanged' show ?thesis
    by simp
qed

theorem find_best_matches_run_deterministic_witness:
  "find_best_matches_run
     \<lparr>self_db_path = ''font_features.pkl'',
      self_font_database = [(''A'', [0, 1]), (''B'', [1, 0]), (''C'', [0, 3])]\<rparr>
     [[0, 2]] 2
     (Inr [(''A'', 1), (''C'', 1)],
      \<lparr>self_db_path = ''font_features.pkl'',
       self_font_database = [(''A'', [0, 1]), (''B'', [1, 0]), (''C'', [0, 3])]\<rparr>)
   \<and> find_best_matches_run
     \<lparr>self_db_path = ''font_features.pkl'',
      self_font_database = [(''A'', [0, 1]), (''B'', [1, 0]), (''C'', [0, 3])]\<rparr>
     [[0, 1], [0, 3]] 2
     (Inr [(''A'', 1), (''C'', 1)],
      \<lparr>self_db_path = ''font_features.pkl'',
       self_font_database = [(''A'', [0, 1]), (''B'', [1, 0]), (''C'', [0, 3])]\<rparr>)"
proof -
  let ?self = "\<lparr>self_db_path = ''font_features.pkl'',
      self_font_database = [(''A'', [0, 1]), (''B'', [1, 0]), (''C'', [0, 3 :: real])]\<rparr>"
  have t: "calculate_target_vector [[0, 2]] = calculate_target_vector [[0, 1], [0, 3]]"
    by (simp add: calculate_target_vector_def np_mean_axis0_def)
  have result: "find_best_matches (self_font_database ?self) [[0, 2]] 2
                 = Inr [(''A'', 1), (''C'', 1)]"
    by (simp add: find_best_matches_def calculate_target_vector_def np_mean_axis0_def
        cosine_similarity_def np_dot_def np_linalg_norm_def slice_to_def sort_scores_def
        real_sqrt_mult)
  have run1: "find_best_matches_run ?self [[0, 2]] 2
                (find_best_matches (self_font_database ?self) [[0, 2]] 2, ?self)"
    by (rule find_best_matches_run_exists)
  have run2: "find_best_matches_run ?self [[0, 1], [0, 3]] 2
                (find_best_matches (self_font_database ?self) [[0, 1], [0, 3]] 2, ?self)"
    by (rule find_best_matches_run_exists)
  from find_best_matches_run_deterministic [OF run1 run2 t]
  have "find_best_matches (self_font_database ?self) [[0, 2]] 2
          = find_best_matches (self_font_database ?self) [[0, 1], [0, 3]] 2"
    by simp
  with run1 run2 result show ?thesis
    by simp
qed

section \<open>Loading the database\<close>

lemma np_array_float32_length: "length (np_array_float32 features) = length features"
  by (simp add: np_array_float32_def)

lemma load_database_pickled:
  "load_database (Some (Pickled data))
     = Inr (map (\<lambda>(name, features). (name, np_array_float32 features)) data)"
  by (simp add: load_database_def pickle_load_def)

text \<open>
  Claim C5, as the code has it. Loading fails with \<^verbatim>\<open>FileNotFoundError\<close> when there is no
  file; it fails with a plain \<^verbatim>\<open>Exception\<close> when unpickling raises
  \<^verbatim>\<open>UnpicklingError\<close>, \<^verbatim>\<open>EOFError\<close>, \<^verbatim>\<open>ImportError\<close> or \<^verbatim>\<open>IndexError\<close>; it
  succeeds only on a file that unpickles to a mapping, and on every such file, whatever
  the lengths of the vectors: the loaded database then has the identifiers of the mapping
  in the mapping's order, each with a vector of the length of the stored one.
\<close>

theorem load_database_outcomes:
  "load_database None = Inl FileNotFoundError
   \<and> (e \<in> {UnpicklingError, EOFError, ImportError, IndexError}
        \<longrightarrow> load_database (Some (Raises e)) = Inl Exception)
   \<and> (load_database db_file = Inr db \<longrightarrow> (\<exists>data. db_file = Some (Pickled data)))
   \<and> (\<exists>loaded. load_database (Some (Pickled data)) = Inr loaded
         \<and> map fst loaded = map fst data
         \<and> map (\<lambda>entry. length (snd entry)) loaded = map (\<lambda>entry. length (snd entry)) data)"
proof (intro conjI impI)
  show "load_database None = Inl FileNotFoundError"
    by (simp add: load_database_def)
next
  assume "e \<in> {UnpicklingError, EOFError, ImportError, IndexError}"
  then show "load_database (Some (Raises e)) = Inl Exception"
    by (auto simp: load_database_def pickle_load_def)
next
  assume ok: "load_database db_file = Inr db"
  show "\<exists>data. db_file = Some (Pickled data)"
  proof (cases db_file)
    case None
    with ok show ?thesis by (simp add: load_database_def)
  next
    case (Some f)
    with ok show ?thesis
      by (cases f) (auto simp: load_database_def pickle_load_def split: if_splits)
  qed
next
  let ?loaded = "map (\<lambda>(name, features). (name, np_array_float32 features)) data"
  have "map fst ?loaded = map fst data"
    by (induction data) auto
  moreover have "map (\<lambda>entry. length (snd entry)) ?loaded
                   = map (\<lambda>entry. length (snd entry)) data"
    by (induction data) (auto simp: np_array_float32_length)
  ultimately show "\<exists>loaded. load_database (Some (Pickled data)) = Inr loaded
         \<and> map fst loaded = map fst data
         \<and> map (\<lambda>entry. length (snd entry)) loaded = map (\<lambda>entry. length (snd entry)) data"
    using load_database_pickled [of data] by blast
qed

theorem load_database_outcomes_witness:
  "load_database (Some (Raises EOFError)) = Inl Exception
   \<and> load_database (Some (Pickled [(''A'', [1, 0, 0, 1 / 10, 0, 1, 1])]))
       = Inr [(''A'', [1, 0, 0, 13421773 / 134217728, 0, 1, 1])]
   \<and> (\<exists>loaded. load_database (Some (Pickled [(''A'', [1, 0, 0, 1 / 10, 0, 1, 1])])) = Inr loaded
         \<and> map fst loaded = [''A'']
         \<and> map (\<lambda>entry. length (snd entry)) loaded = [7])"
  using load_database_outcomes
      [of EOFError "Some (Pickled [(''A'', [1, 0, 0, 1 / 10, 0, 1, 1])])"
        "[(''A'', [1, 0, 0, 13421773 / 134217728, 0, 1, 1])]"
        "[(''A'', [1, 0, 0, 1 / 10, 0, 1, 1])]"]
  by (simp add: load_database_pickled np_array_float32_def float32_zero float32_one
      float32_tenth)

text \<open>
  The claim as stated fails: a file whose two vectors have the lengths 2 and 3 loads
  without an error, and the loaded database has a vector that is not of length 7 and
  two vectors of different lengths.
\<close>

theorem load_database_accepts_any_dimension:
  "load_database (Some (Pickled [(''A'', [1, 0]), (''B'', [1, 0, 0])]))
     = Inr [(''A'', [1, 0]), (''B'', [1, 0, 0])]
   \<and> length [1, 0 :: real] \<noteq> 7
   \<and> length [1, 0 :: real] \<noteq> length [1, 0, 0 :: real]"
  by (simp add: load_database_pickled np_array_float32_def float32_zero float32_one)

section \<open>Feature extraction\<close>

text \<open>
  Claim C6. For a two-dimensional glyph image with zero area or without a non-zero pixel,
  the extractor raises nothing and returns the vector of seven zeros.
\<close>

theorem extract_features_no_signal:
  assumes "shape img = [h, w]"
    and "h * w = 0 \<or> count_nonzero img = 0"
  shows "extract_features cv (Some img) = Inr [0, 0, 0, 0, 0, 0, 0]"
  using assms
  by (auto simp: extract_features_def np_size_def np_zeros_def FEATURE_VECTOR_SIZE_def
      eval_nat_numeral)

theorem extract_features_no_signal_witness:
  "extract_features cv2_single_pixel (Some \<lparr>shape = [0, 5], flat = []\<rparr>)
     = Inr [0, 0, 0, 0, 0, 0, 0]
   \<and> extract_features cv2_single_pixel (Some \<lparr>shape = [2, 2], flat = [0, 0, 0, 0]\<rparr>)
     = Inr [0, 0, 0, 0, 0, 0, 0]"
  using extract_features_no_signal [of "\<lparr>shape = [0, 5], flat = []\<rparr>" 0 5 cv2_single_pixel]
    extract_features_no_signal [of "\<lparr>shape = [2, 2], flat = [0, 0, 0, 0]\<rparr>" 2 2 cv2_single_pixel]
  by (simp add: count_nonzero_def)



subsection \<open>Ranges of the density and of the centroid\<close>

lemma intensity_nonneg: "0 \<le> intensity p"
  by (simp only: intensity_def of_nat_0_le_iff)

lemma intensity_pos:
  assumes "p \<noteq> 0"
  shows "0 < intensity p"
proof -
  from assms have "0 < unat p"
    by (simp add: unat_gt_0)
  then show ?thesis
    by (simp only: intensity_def of_nat_0_less_iff)
qed

lemma intensity_sum_nonneg:
  "0 \<le> sum_list (map (\<lambda>(k, p). intensity p) (enumerate n (ps :: 8 word list)))"
  by (induction ps arbitrary: n) (simp_all add: intensity_nonneg)

lemma intensity_sum_pos:
  "\<exists>p \<in> set ps. p \<noteq> 0
   \<Longrightarrow> 0 < sum_list (map (\<lambda>(k, p). intensity p) (enumerate n (ps :: 8 word list)))"
proof (induction ps arbitrary: n)
  case Nil
  then show ?case by simp
next
  case (Cons p ps)
  show ?case
  proof (cases "p = 0")
    case True
    with Cons.prems have "\<exists>p \<in> set ps. p \<noteq> 0" by simp
    from Cons.IH [OF this, of "Suc n"] intensity_nonneg [of p] show ?thesis by simp
  next
    case False
    then have "0 < intensity p"
      by (rule intensity_pos)
    with intensity_sum_nonneg [of "Suc n" ps] show ?thesis by simp
  qed
qed

lemma weighted_sum_nonneg:
  "0 \<le> sum_list (map (\<lambda>(k, p). real (f k) * intensity p) (enumerate n (ps :: 8 word list)))"
  by (induction ps arbitrary: n) (simp_all add: intensity_nonneg)

lemma weighted_sum_le:
  assumes "\<forall>k. n \<le> k \<and> k < n + length ps \<longrightarrow> f k \<le> (c :: nat)"
  shows "sum_list (map (\<lambda>(k, p). real (f k) * intensity p) (enumerate n (ps :: 8 word list)))
           \<le> real c * sum_list (map (\<lambda>(k, p). intensity p) (enumerate n ps))"
  using assms
proof (induction ps arbitrary: n)
  case Nil
  show ?case by simp
next
  case (Cons p ps)
  have head: "real (f n) * intensity p \<le> real c * intensity p"
    using Cons.prems by (intro mult_right_mono) (simp_all add: intensity_nonneg)
  have "\<forall>k. Suc n \<le> k \<and> k < Suc n + length ps \<longrightarrow> f k \<le> c"
    using Cons.prems by simp
  from Cons.IH [OF this] head show ?case
    by (simp add: algebra_simps)
qed

lemma count_nonzero_pos_iff: "count_nonzero img \<noteq> 0 \<longleftrightarrow> (\<exists>p \<in> set (flat img). p \<noteq> 0)"
proof -
  have "count_nonzero img \<noteq> 0 \<longleftrightarrow> filter (\<lambda>p. p \<noteq> 0) (flat img) \<noteq> []"
    by (simp add: count_nonzero_def)
  then show ?thesis
    by (simp add: filter_empty_conv)
qed

lemma count_nonzero_le: "count_nonzero img \<le> length (flat img)"
  by (simp add: count_nonzero_def)

lemma centroid_bound:
  assumes "0 < m" and "0 \<le> s" and "s \<le> real d * m" and "0 < d"
  shows "0 \<le> (s / m) / real d \<and> (s / m) / real d \<le> 1"
proof -
  have "s / m \<le> (real d * m) / m"
    using assms by (intro divide_right_mono) simp_all
  then have "s / m \<le> real d"
    using assms by simp
  then have "(s / m) / real d \<le> real d / real d"
    by (intro divide_right_mono) simp_all
  then have hi: "(s / m) / real d \<le> 1"
    using assms(4) by simp
  have lo: "0 \<le> (s / m) / real d"
    using assms by simp
  from lo hi show ?thesis ..
qed

text \<open>
  Claim C10. For a two-dimensional glyph image whose buffer has height times width
  pixels, at least one of them non-zero, the extractor returns a vector of seven
  components whose pixel density lies in \<open>(0, 1]\<close> and whose two normalised centroid
  coordinates lie in \<open>[0, 1]\<close>.
\<close>

theorem extract_features_ranges:
  assumes "shape img = [h, w]"
    and "length (flat img) = h * w"
    and "count_nonzero img \<noteq> 0"
  shows "\<exists>v. extract_features cv (Some img) = Inr v \<and> length v = 7
           \<and> 0 < v ! 1 \<and> v ! 1 \<le> 1
           \<and> 0 \<le> v ! 2 \<and> v ! 2 \<le> 1
           \<and> 0 \<le> v ! 3 \<and> v ! 3 \<le> 1"
proof -
  from assms(3) have fg: "\<exists>p \<in> set (flat img). p \<noteq> 0"
    using count_nonzero_pos_iff by blast
  then have "flat img \<noteq> []" by auto
  with assms(2) have hw: "0 < h" "0 < w"
    by (cases h; cases w; simp)+
  let ?mom = "cv2_moments img w"
  have m00: "0 < m00 ?mom"
    using intensity_sum_pos [OF fg, of 0] by (simp add: cv2_moments_def)
  have m10_lo: "0 \<le> m10 ?mom"
    using weighted_sum_nonneg [of "\<lambda>k. k mod w" 0 "flat img"] by (simp add: cv2_moments_def)
  have m01_lo: "0 \<le> m01 ?mom"
    using weighted_sum_nonneg [of "\<lambda>k. k div w" 0 "flat img"] by (simp add: cv2_moments_def)
  have "\<forall>k. 0 \<le> k \<and> k < 0 + length (flat img) \<longrightarrow> k mod w \<le> w"
    using hw by (simp add: less_imp_le)
  from weighted_sum_le [OF this] have m10_hi: "m10 ?mom \<le> real w * m00 ?mom"
    by (simp add: cv2_moments_def)
  have "\<forall>k. 0 \<le> k \<and> k < 0 + length (flat img) \<longrightarrow> k div w \<le> h"
  proof (intro allI impI)
    fix k assume "0 \<le> k \<and> k < 0 + length (flat img)"
    then have "k < h * w" using assms(2) by simp
    then have "k div w < h"
      using hw by (simp add: less_mult_imp_div_less)
    then show "k div w \<le> h" by simp
  qed
  from weighted_sum_le [OF this] have m01_hi: "m01 ?mom \<le> real h * m00 ?mom"
    by (simp add: cv2_moments_def)
  have cx: "0 \<le> (m10 ?mom / m00 ?mom) / real w \<and> (m10 ?mom / m00 ?mom) / real w \<le> 1"
    using m00 m10_lo m10_hi hw(2) by (rule centroid_bound)
  have cy: "0 \<le> (m01 ?mom / m00 ?mom) / real h \<and> (m01 ?mom / m00 ?mom) / real h \<le> 1"
    using m00 m01_lo m01_hi hw(1) by (rule centroid_bound)
  have dens_lo: "0 < real (count_nonzero img) / real (h * w)"
    using assms(3) hw by simp
  have "real (count_nonzero img) \<le> real (h * w)"
    using count_nonzero_le [of img] assms(2) by (simp only: of_nat_le_iff)
  then have dens_hi: "real (count_nonzero img) / real (h * w) \<le> 1"
    using hw by (simp only: divide_le_eq_1) simp
  have size: "np_size img \<noteq> 0"
    using hw assms(1) by (simp add: np_size_def)
  obtain contours hierarchy where fc: "findContours cv img = (contours, hierarchy)"
    by (cases "findContours cv img")
  show ?thesis
    using size assms(1,3) hw m00 cx cy dens_lo dens_hi fc
    by (simp add: extract_features_def Let_def)
qed

theorem extract_features_ranges_witness:
  "\<exists>v. extract_features cv2_single_pixel (Some \<lparr>shape = [2, 2], flat = [0, 255, 0, 0]\<rparr>) = Inr v
      \<and> length v = 7
      \<and> 0 < v ! 1 \<and> v ! 1 \<le> 1
      \<and> 0 \<le> v ! 2 \<and> v ! 2 \<le> 1
      \<and> 0 \<le> v ! 3 \<and> v ! 3 \<le> 1"
  using extract_features_ranges [of "\<lparr>shape = [2, 2], flat = [0, 255, 0, 0]\<rparr>" 2 2 cv2_single_pixel]
  by (simp add: count_nonzero_def)

lemma extract_features_single_pixel:
  "extract_features cv2_single_pixel (Some \<lparr>shape = [2, 2], flat = [0, 255, 0, 0]\<rparr>)
     = Inr [1, 1 / 4, 1 / 2, 0, 0, 0, 0]"
  by (simp add: extract_features_def np_size_def count_nonzero_def cv2_moments_def intensity_def
     cv2_single_pixel_def parent_def Let_def enumerate_eq_zip upt_rec)

end
